theory Spec2Isabelle
  imports Main
begin

section \<open>Data model of src/tetris-game.tsx\<close>

text \<open>
  The component keeps its state in React hooks and computes on arrays of JavaScript
  numbers. A value read out of an array is a number or, when the index is past the end,
  \<^verbatim>\<open>undefined\<close>; a cell is therefore an optional integer, \<open>None\<close> standing for
  \<^verbatim>\<open>undefined\<close>. The numbers that occur are small integers, far from the range where
  doubles lose precision, so \<open>int\<close> models them.
\<close>

type_synonym cell = "int option"

text \<open>JavaScript truthiness of a cell: \<^verbatim>\<open>undefined\<close> and \<^verbatim>\<open>0\<close> are falsy.\<close>

definition truthy :: "cell \<Rightarrow> bool" where
  "truthy c = (case c of None \<Rightarrow> False | Some n \<Rightarrow> n \<noteq> 0)"

text \<open>The only exception the code can raise: a property access on \<^verbatim>\<open>undefined\<close>.\<close>

datatype error = TypeError

type_synonym Board = "cell list list"

text \<open>\<^verbatim>\<open>type Position = { x: number; y: number }\<close>; the fields are prefixed because
  \<open>x\<close> and \<open>y\<close> are needed as variable names.\<close>

record Position =
  pos_x :: int
  pos_y :: int

record Piece =
  shape :: "cell list list"
  color :: string
  position :: Position

text \<open>The keys of the table \<^verbatim>\<open>TETROMINOES\<close> (I, O, T, S, Z, J, L).\<close>

datatype TetrominoType = Tet_I | Tet_O | Tet_T | Tet_S | Tet_Z | Tet_J | Tet_L

text \<open>The seven \<^verbatim>\<open>useState\<close> cells of the component, as one record.\<close>

record GameState =
  board :: Board
  currentPiece :: "Piece option"
  score :: int
  lines :: int
  level :: int
  gameOver :: bool
  isPaused :: bool

definition BOARD_WIDTH :: nat where
  "BOARD_WIDTH = 10"

definition BOARD_HEIGHT :: nat where
  "BOARD_HEIGHT = 20"

text \<open>\<^verbatim>\<open>Array(BOARD_HEIGHT).fill(null).map(() => Array(BOARD_WIDTH).fill(0))\<close>\<close>

definition EMPTY_BOARD :: Board where
  "EMPTY_BOARD = replicate BOARD_HEIGHT (replicate BOARD_WIDTH (Some 0))"

text \<open>A row literal of the source, \<^verbatim>\<open>[0, 1, 0]\<close>, as a list of defined cells.\<close>

definition nums :: "int list \<Rightarrow> cell list" where
  "nums ns = map Some ns"

fun TETROMINOES :: "TetrominoType \<Rightarrow> cell list list \<times> string" where
  "TETROMINOES Tet_I =
     ([nums [0, 0, 0, 0], nums [1, 1, 1, 1], nums [0, 0, 0, 0], nums [0, 0, 0, 0]], ''#00f0f0'')"
| "TETROMINOES Tet_O = ([nums [1, 1], nums [1, 1]], ''#f0f000'')"
| "TETROMINOES Tet_T = ([nums [0, 1, 0], nums [1, 1, 1], nums [0, 0, 0]], ''#a000f0'')"
| "TETROMINOES Tet_S = ([nums [0, 1, 1], nums [1, 1, 0], nums [0, 0, 0]], ''#00f000'')"
| "TETROMINOES Tet_Z = ([nums [1, 1, 0], nums [0, 1, 1], nums [0, 0, 0]], ''#f00000'')"
| "TETROMINOES Tet_J = ([nums [1, 0, 0], nums [1, 1, 1], nums [0, 0, 0]], ''#0000f0'')"
| "TETROMINOES Tet_L = ([nums [0, 0, 1], nums [1, 1, 1], nums [0, 0, 0]], ''#f0a000'')"

section \<open>Array reads and writes as JavaScript performs them\<close>

text \<open>\<^verbatim>\<open>row[i]\<close>: \<^verbatim>\<open>undefined\<close> outside the array.\<close>

definition jsNth :: "cell list \<Rightarrow> int \<Rightarrow> cell" where
  "jsNth row i = (if 0 \<le> i \<and> nat i < length row then row ! nat i else None)"

text \<open>\<^verbatim>\<open>board[i]\<close>: the row, or \<open>None\<close> for \<^verbatim>\<open>undefined\<close>.\<close>

definition jsRow :: "Board \<Rightarrow> int \<Rightarrow> cell list option" where
  "jsRow b i = (if 0 \<le> i \<and> nat i < length b then Some (b ! nat i) else None)"

text \<open>
  \<^verbatim>\<open>row[i] = v\<close>: inside the array the element is replaced; past the end the array grows,
  the skipped indices being holes that read as \<^verbatim>\<open>undefined\<close>; a negative index sets a
  property that is no element, so the elements stay as they are.
\<close>

definition jsSet :: "cell list \<Rightarrow> int \<Rightarrow> cell \<Rightarrow> cell list" where
  "jsSet row i v =
     (if i < 0 then row
      else if nat i < length row then row[nat i := v]
      else row @ replicate (nat i - length row) None @ [v])"

text \<open>\<^verbatim>\<open>newBoard[boardY][boardX] = 1\<close> for \<open>boardY \<ge> 0\<close>: a \<^verbatim>\<open>TypeError\<close> when the
  row is \<^verbatim>\<open>undefined\<close>.\<close>

definition setCell :: "Board \<Rightarrow> int \<Rightarrow> int \<Rightarrow> error + Board" where
  "setCell newBoard boardY boardX =
     (case jsRow newBoard boardY of
        None \<Rightarrow> Inl TypeError
      | Some row \<Rightarrow> Inr (newBoard[nat boardY := jsSet row boardX (Some 1)]))"

section \<open>The functions of the component\<close>

text \<open>
  \<^verbatim>\<open>createRandomPiece\<close>: the key drawn with \<^verbatim>\<open>Math.random\<close> is the argument.
  Every shape of the table has a first row, so \<^verbatim>\<open>tetromino.shape[0]\<close> is defined.
\<close>

definition createRandomPiece :: "TetrominoType \<Rightarrow> Piece" where
  "createRandomPiece randomType =
     (let tetromino = TETROMINOES randomType in
      \<lparr> shape = fst tetromino,
        color = snd tetromino,
        position = \<lparr> pos_x = int (BOARD_WIDTH div 2) - int (length (hd (fst tetromino)) div 2),
                     pos_y = 0 \<rparr> \<rparr>)"

text \<open>
  \<^verbatim>\<open>isValidPosition\<close>, inner loop over the cells \<open>x, x + 1, ...\<close> of shape row \<open>y\<close>.
  \<open>Inr False\<close> is the early \<^verbatim>\<open>return false\<close>, \<open>Inr True\<close> the loop running to its end.
  The board read is the \<^verbatim>\<open>board\<close> the closure captured, passed as \<open>b\<close>.
\<close>

fun validCells :: "Board \<Rightarrow> Position \<Rightarrow> nat \<Rightarrow> nat \<Rightarrow> cell list \<Rightarrow> error + bool" where
  "validCells b newPosition y x [] = Inr True"
| "validCells b newPosition y x (c # cs) =
     (if truthy c then
        (let newX = pos_x newPosition + int x;
             newY = pos_y newPosition + int y
         in if newX < 0 \<or> newX \<ge> int BOARD_WIDTH \<or> newY \<ge> int BOARD_HEIGHT then Inr False
            else if newY \<ge> 0 then
              (case jsRow b newY of
                 None \<Rightarrow> Inl TypeError
               | Some row \<Rightarrow>
                   if truthy (jsNth row newX) then Inr False
                   else validCells b newPosition y (Suc x) cs)
            else validCells b newPosition y (Suc x) cs)
      else validCells b newPosition y (Suc x) cs)"

text \<open>The outer loop over the shape rows \<open>y, y + 1, ...\<close>.\<close>

fun validRows :: "Board \<Rightarrow> Position \<Rightarrow> nat \<Rightarrow> cell list list \<Rightarrow> error + bool" where
  "validRows b newPosition y [] = Inr True"
| "validRows b newPosition y (r # rs) =
     (case validCells b newPosition y 0 r of
        Inl e \<Rightarrow> Inl e
      | Inr ok \<Rightarrow> if ok then validRows b newPosition (Suc y) rs else Inr False)"

text \<open>\<^verbatim>\<open>newShape || piece.shape\<close>: an array is truthy, so a given shape is always taken.\<close>

definition isValidPosition ::
  "Board \<Rightarrow> Piece \<Rightarrow> Position \<Rightarrow> cell list list option \<Rightarrow> error + bool" where
  "isValidPosition b piece newPosition newShape =
     validRows b newPosition 0 (case newShape of None \<Rightarrow> shape piece | Some s \<Rightarrow> s)"

text \<open>
  \<^verbatim>\<open>rotatePiece\<close>:
  \<^verbatim>\<open>shape[0].map((_, index) => shape.map((row) => row[index]).reverse())\<close>.
  With no row, \<^verbatim>\<open>shape[0]\<close> is \<^verbatim>\<open>undefined\<close> and \<^verbatim>\<open>.map\<close> on it raises.
\<close>

definition rotatePiece :: "cell list list \<Rightarrow> error + cell list list" where
  "rotatePiece sh =
     (case sh of
        [] \<Rightarrow> Inl TypeError
      | r0 # _ \<Rightarrow>
          Inr (map (\<lambda>index. rev (map (\<lambda>row. jsNth row (int index)) sh)) [0..<length r0]))"

text \<open>\<^verbatim>\<open>placePiece\<close>, inner loop over the cells of shape row \<open>y\<close>, on the copy
  \<^verbatim>\<open>newBoard\<close>.\<close>

fun placeCells :: "Board \<Rightarrow> Position \<Rightarrow> nat \<Rightarrow> nat \<Rightarrow> cell list \<Rightarrow> error + Board" where
  "placeCells newBoard pos y x [] = Inr newBoard"
| "placeCells newBoard pos y x (c # cs) =
     (if truthy c then
        (let boardY = pos_y pos + int y;
             boardX = pos_x pos + int x
         in if boardY \<ge> 0 then
              (case setCell newBoard boardY boardX of
                 Inl e \<Rightarrow> Inl e
               | Inr newBoard' \<Rightarrow> placeCells newBoard' pos y (Suc x) cs)
            else placeCells newBoard pos y (Suc x) cs)
      else placeCells newBoard pos y (Suc x) cs)"

fun placeRows :: "Board \<Rightarrow> Position \<Rightarrow> nat \<Rightarrow> cell list list \<Rightarrow> error + Board" where
  "placeRows newBoard pos y [] = Inr newBoard"
| "placeRows newBoard pos y (r # rs) =
     (case placeCells newBoard pos y 0 r of
        Inl e \<Rightarrow> Inl e
      | Inr newBoard' \<Rightarrow> placeRows newBoard' pos (Suc y) rs)"

text \<open>\<^verbatim>\<open>board.map((row) => [...row])\<close> copies every row, so the board of the state is
  never written to; in the model the copy is the same list.\<close>

definition placePiece :: "Board \<Rightarrow> Piece \<Rightarrow> error + Board" where
  "placePiece b piece =
     (let newBoard = map (\<lambda>row. row) b
      in placeRows newBoard (position piece) 0 (shape piece))"

text \<open>\<^verbatim>\<open>clearLines\<close>: the loop that unshifts empty rows while the board is too short.\<close>

function unshiftRows :: "Board \<Rightarrow> Board" where
  "unshiftRows newBoard =
     (if length newBoard < BOARD_HEIGHT
      then unshiftRows (replicate BOARD_WIDTH (Some 0) # newBoard)
      else newBoard)"
  by pat_completeness auto

termination
  by (relation "measure (\<lambda>newBoard. BOARD_HEIGHT - length newBoard)") auto

declare unshiftRows.simps [simp del]

definition clearLines :: "Board \<Rightarrow> Board \<times> int" where
  "clearLines b =
     (let newBoard = filter (\<lambda>row. list_ex (\<lambda>cell. cell = Some 0) row) b;
          linesCleared = int BOARD_HEIGHT - int (length newBoard)
      in (unshiftRows newBoard, linesCleared))"

text \<open>
  An event handler returns nothing; what it leaves behind is the state React commits from
  the updates it queued, and the exception, if one escaped it. An exception does not undo
  the updates queued before it was raised.
\<close>

type_synonym outcome = "GameState \<times> error option"

text \<open>
  \<^verbatim>\<open>movePieceDown\<close>. The handler reads \<^verbatim>\<open>board\<close>, \<^verbatim>\<open>currentPiece\<close> and
  \<^verbatim>\<open>level\<close> as the render that created it captured them: \<^verbatim>\<open>setBoard\<close> queues the
  cleared board for the next render and does not change the \<^verbatim>\<open>board\<close> that
  \<^verbatim>\<open>isValidPosition\<close> closes over, so the check of \<^verbatim>\<open>nextPiece\<close> reads \<open>board s\<close>,
  the board before the landed piece was placed. The updater functions of
  \<^verbatim>\<open>setLines\<close> and \<^verbatim>\<open>setScore\<close> run on the stored values, \<open>lines s\<close> and \<open>score s\<close>.
  \<open>rnd\<close> is the key \<^verbatim>\<open>createRandomPiece\<close> draws.
\<close>

definition movePieceDown :: "GameState \<Rightarrow> TetrominoType \<Rightarrow> outcome" where
  "movePieceDown s rnd =
     (case currentPiece s of
        None \<Rightarrow> (s, None)
      | Some cp \<Rightarrow>
          if gameOver s \<or> isPaused s then (s, None)
          else
            (let newPosition = (position cp)\<lparr>pos_y := pos_y (position cp) + 1\<rparr> in
             case isValidPosition (board s) cp newPosition None of
               Inl e \<Rightarrow> (s, Some e)
             | Inr True \<Rightarrow> (s\<lparr>currentPiece := Some (cp\<lparr>position := newPosition\<rparr>)\<rparr>, None)
             | Inr False \<Rightarrow>
                 (case placePiece (board s) cp of
                    Inl e \<Rightarrow> (s, Some e)
                  | Inr newBoard \<Rightarrow>
                      (let clearedBoard = fst (clearLines newBoard);
                           linesCleared = snd (clearLines newBoard);
                           s' = s\<lparr>board := clearedBoard,
                                  lines := lines s + linesCleared,
                                  score := score s + linesCleared * 100 * level s\<rparr>;
                           nextPiece = createRandomPiece rnd
                       in case isValidPosition (board s) nextPiece (position nextPiece) None of
                            Inl e \<Rightarrow> (s', Some e)
                          | Inr False \<Rightarrow> (s'\<lparr>gameOver := True\<rparr>, None)
                          | Inr True \<Rightarrow> (s'\<lparr>currentPiece := Some nextPiece\<rparr>, None)))))"

text \<open>\<^verbatim>\<open>handleKeyPress\<close>, \<open>key\<close> being \<^verbatim>\<open>event.key\<close>.\<close>

definition handleKeyPress :: "GameState \<Rightarrow> string \<Rightarrow> TetrominoType \<Rightarrow> outcome" where
  "handleKeyPress s key rnd =
     (case currentPiece s of
        None \<Rightarrow> (s, None)
      | Some cp \<Rightarrow>
          if gameOver s \<or> isPaused s then (s, None)
          else if key = ''ArrowLeft'' then
            (let leftPosition = (position cp)\<lparr>pos_x := pos_x (position cp) - 1\<rparr> in
             case isValidPosition (board s) cp leftPosition None of
               Inl e \<Rightarrow> (s, Some e)
             | Inr True \<Rightarrow> (s\<lparr>currentPiece := Some (cp\<lparr>position := leftPosition\<rparr>)\<rparr>, None)
             | Inr False \<Rightarrow> (s, None))
          else if key = ''ArrowRight'' then
            (let rightPosition = (position cp)\<lparr>pos_x := pos_x (position cp) + 1\<rparr> in
             case isValidPosition (board s) cp rightPosition None of
               Inl e \<Rightarrow> (s, Some e)
             | Inr True \<Rightarrow> (s\<lparr>currentPiece := Some (cp\<lparr>position := rightPosition\<rparr>)\<rparr>, None)
             | Inr False \<Rightarrow> (s, None))
          else if key = ''ArrowDown'' then movePieceDown s rnd
          else if key = ''ArrowUp'' \<or> key = '' '' then
            (case rotatePiece (shape cp) of
               Inl e \<Rightarrow> (s, Some e)
             | Inr rotatedShape \<Rightarrow>
                 (case isValidPosition (board s) cp (position cp) (Some rotatedShape) of
                    Inl e \<Rightarrow> (s, Some e)
                  | Inr True \<Rightarrow> (s\<lparr>currentPiece := Some (cp\<lparr>shape := rotatedShape\<rparr>)\<rparr>, None)
                  | Inr False \<Rightarrow> (s, None)))
          else if key = ''p'' \<or> key = ''P'' then (s\<lparr>isPaused := \<not> isPaused s\<rparr>, None)
          else (s, None))"

text \<open>The Pause/Resume button: \<^verbatim>\<open>onClick={() => setIsPaused(!isPaused)}\<close>,
  \<^verbatim>\<open>disabled={gameOver}\<close>.\<close>

definition pauseButtonClick :: "GameState \<Rightarrow> GameState" where
  "pauseButtonClick s = (if gameOver s then s else s\<lparr>isPaused := \<not> isPaused s\<rparr>)"

text \<open>\<^verbatim>\<open>startNewGame\<close>.\<close>

definition startNewGame :: "TetrominoType \<Rightarrow> GameState" where
  "startNewGame rnd =
     \<lparr> board = EMPTY_BOARD, currentPiece = Some (createRandomPiece rnd), score = 0,
       lines = 0, level = 1, gameOver = False, isPaused = False \<rparr>"

text \<open>The effect \<^verbatim>\<open>setLevel(Math.floor(lines / 10) + 1)\<close>; on integers \<open>div\<close> is the
  floor of the quotient.\<close>

definition levelEffect :: "GameState \<Rightarrow> GameState" where
  "levelEffect s = s\<lparr>level := lines s div 10 + 1\<rparr>"

text \<open>
  The effects React runs after the render that follows an event, \<open>prev\<close> being the state
  of the render before: the level effect has the dependency \<^verbatim>\<open>[lines]\<close>, the
  initialising effect the dependencies \<^verbatim>\<open>[currentPiece, gameOver]\<close> and the body
  \<^verbatim>\<open>if (!currentPiece && !gameOver) setCurrentPiece(createRandomPiece())\<close>.
\<close>

definition runEffects :: "GameState \<Rightarrow> TetrominoType \<Rightarrow> GameState \<Rightarrow> GameState" where
  "runEffects prev rnd s =
     (let s1 = (if lines s \<noteq> lines prev then levelEffect s else s)
      in if currentPiece s = None \<and> \<not> gameOver s \<and>
            (currentPiece prev \<noteq> None \<or> gameOver prev \<noteq> gameOver s)
         then s1\<lparr>currentPiece := Some (createRandomPiece rnd)\<rparr>
         else s1)"

text \<open>
  What drives the component within one game: the interval timer calling
  \<^verbatim>\<open>movePieceDown\<close>, a key press, and the Pause/Resume button. One event is handled to
  its end, the component renders, the effects run, and only then the next event is taken.
\<close>

datatype event = Tick TetrominoType | KeyDown string TetrominoType | PauseButton

fun fire :: "GameState \<Rightarrow> event \<Rightarrow> outcome" where
  "fire s (Tick rnd) = movePieceDown s rnd"
| "fire s (KeyDown key rnd) = handleKeyPress s key rnd"
| "fire s PauseButton = (pauseButtonClick s, None)"

definition step :: "GameState \<Rightarrow> event \<Rightarrow> TetrominoType \<Rightarrow> GameState" where
  "step s ev rnd = runEffects s rnd (fst (fire s ev))"

text \<open>
  The states of a game: from \<^verbatim>\<open>startNewGame\<close> on, by events. The first game starts
  in the same state: the initial values of the hooks are those \<^verbatim>\<open>startNewGame\<close> sets,
  with no piece, and the initialising effect sets the piece after the first render.
\<close>

inductive reachable :: "GameState \<Rightarrow> bool" where
  reach_start: "reachable (startNewGame rnd)"
| reach_step: "reachable s \<Longrightarrow> reachable (step s ev rnd)"

text \<open>
  A game played by a list of events. The last argument of \<open>step\<close> is the key the
  initialising effect would draw; that effect does not run while there is a piece.
\<close>

fun play :: "GameState \<Rightarrow> event list \<Rightarrow> GameState" where
  "play s [] = s"
| "play s (ev # evs) = play (step s ev Tet_I) evs"

section \<open>The contract of the collision check\<close>

text \<open>The cell of a board at a row and a column, \<^verbatim>\<open>undefined\<close> where there is none.\<close>

definition cellAt :: "Board \<Rightarrow> int \<Rightarrow> int \<Rightarrow> cell" where
  "cellAt b r c = (case jsRow b r of None \<Rightarrow> None | Some row \<Rightarrow> jsNth row c)"

text \<open>
  What the specification asks of the shape cell \<open>(x, y)\<close> at a candidate position: the
  mapped column lies in \<open>[0, BOARD_WIDTH)\<close>, the mapped row is below \<open>BOARD_HEIGHT\<close>
  (a negative row is allowed), and when the mapped row is not negative the board cell
  there is not filled.
\<close>

definition contractCell :: "Board \<Rightarrow> Position \<Rightarrow> nat \<Rightarrow> nat \<Rightarrow> bool" where
  "contractCell b p y x =
     (let col = pos_x p + int x; row = pos_y p + int y
      in 0 \<le> col \<and> col < int BOARD_WIDTH \<and> row < int BOARD_HEIGHT \<and>
         (0 \<le> row \<longrightarrow> \<not> truthy (cellAt b row col)))"

section \<open>The cells a piece maps onto\<close>

text \<open>Some set (truthy) cell \<open>(x, y)\<close> of the shape of the piece maps, through the position
  of the piece, onto row \<open>r\<close> and column \<open>c\<close>.\<close>

definition mapsOnto :: "Piece \<Rightarrow> int \<Rightarrow> int \<Rightarrow> bool" where
  "mapsOnto piece r c =
     (\<exists>y<length (shape piece). \<exists>x<length (shape piece ! y).
        truthy (shape piece ! y ! x) \<and>
        r = pos_y (position piece) + int y \<and> c = pos_x (position piece) + int x)"

section \<open>Concrete boards and states\<close>

text \<open>Eighteen empty rows, a complete row, and a row with one empty cell.\<close>

definition board1 :: Board where
  "board1 =
     replicate 18 (replicate 10 (Some 0)) @ [replicate 10 (Some 1), Some 0 # replicate 9 (Some 1)]"

text \<open>The O piece with its upper row above the board, and with its lower row below it.\<close>

definition pieceAbove :: Piece where
  "pieceAbove = (createRandomPiece Tet_O)\<lparr>position := \<lparr>pos_x = 4, pos_y = - 1\<rparr>\<rparr>"

definition pieceBelow :: Piece where
  "pieceBelow = (createRandomPiece Tet_O)\<lparr>position := \<lparr>pos_x = 4, pos_y = 19\<rparr>\<rparr>"

text \<open>
  A landing that completes two rows: the two bottom rows are filled except for the
  columns 4 and 5, and the O piece stands on the floor in those columns; the game has 29
  lines at level 3.
\<close>

definition landingPiece :: Piece where
  "landingPiece = (createRandomPiece Tet_O)\<lparr>position := \<lparr>pos_x = 4, pos_y = 18\<rparr>\<rparr>"

definition landingState :: GameState where
  "landingState =
     \<lparr> board = replicate 18 (replicate 10 (Some 0))
                 @ [nums [1, 1, 1, 1, 0, 0, 1, 1, 1, 1], nums [1, 1, 1, 1, 0, 0, 1, 1, 1, 1]],
       currentPiece = Some landingPiece,
       score = 1000, lines = 29, level = 3, gameOver = False, isPaused = False \<rparr>"

definition landedBoard :: Board where
  "landedBoard =
     replicate 18 (replicate 10 (Some 0)) @ [replicate 10 (Some 1), replicate 10 (Some 1)]"

text \<open>
  Nine O pieces dropped in the middle fill the columns 4 and 5 from row 2 down; the tenth
  has just been spawned and cannot move down.
\<close>

definition towerState :: GameState where
  "towerState =
     \<lparr> board = replicate 2 (replicate 10 (Some 0))
                 @ replicate 18 (nums [0, 0, 0, 0, 1, 1, 0, 0, 0, 0]),
       currentPiece = Some (createRandomPiece Tet_O),
       score = 0, lines = 0, level = 1, gameOver = False, isPaused = False \<rparr>"

text \<open>A new game that is paused, one that is over, and one with no piece.\<close>

definition pausedState :: GameState where
  "pausedState = (startNewGame Tet_T)\<lparr>isPaused := True\<rparr>"

definition gameOverState :: GameState where
  "gameOverState = (startNewGame Tet_T)\<lparr>gameOver := True\<rparr>"

definition noPieceState :: GameState where
  "noPieceState = (startNewGame Tet_T)\<lparr>currentPiece := None\<rparr>"

text \<open>
  The events that clear two rows of an empty board with four I pieces and an O piece: an I
  piece moved to the columns 0 to 3 and dropped to the floor, a second one on top of it,
  two more in the columns 4 to 7, and the O piece in the columns 8 and 9. The last tick of
  each drop is the landing; it carries the key of the piece drawn next.
\<close>

definition clearTwoRows :: "event list" where
  "clearTwoRows =
     replicate 3 (KeyDown ''ArrowLeft'' Tet_I) @ replicate 19 (Tick Tet_I)
     @ replicate 3 (KeyDown ''ArrowLeft'' Tet_I) @ replicate 18 (Tick Tet_I)
     @ replicate 1 (KeyDown ''ArrowRight'' Tet_I) @ replicate 19 (Tick Tet_I)
     @ replicate 1 (KeyDown ''ArrowRight'' Tet_I) @ replicate 18 (Tick Tet_O)
     @ replicate 4 (KeyDown ''ArrowRight'' Tet_I) @ replicate 19 (Tick Tet_I)"

text \<open>Four times two rows cleared, and the fifth time up to the last landing.\<close>

definition eightLinesPlay :: "event list" where
  "eightLinesPlay = concat (replicate 4 clearTwoRows) @ butlast clearTwoRows"

text \<open>The state that play leads to: eight lines, level 1, and the O piece on the floor in
  the two columns that are still empty.\<close>

definition eightLinesState :: GameState where
  "eightLinesState =
     \<lparr> board = replicate 18 (replicate 10 (Some 0))
                 @ [nums [1, 1, 1, 1, 1, 1, 1, 1, 0, 0], nums [1, 1, 1, 1, 1, 1, 1, 1, 0, 0]],
       currentPiece = Some ((createRandomPiece Tet_O)\<lparr>position := \<lparr>pos_x = 8, pos_y = 18\<rparr>\<rparr>),
       score = 800, lines = 8, level = 1, gameOver = False, isPaused = False \<rparr>"

section \<open>Line clearing\<close>

lemma unshiftRows_eq:
  "unshiftRows nb = replicate (BOARD_HEIGHT - length nb) (replicate BOARD_WIDTH (Some 0)) @ nb"
proof (induction nb rule: unshiftRows.induct)
  case (1 nb)
  show ?case
  proof (cases "length nb < BOARD_HEIGHT")
    case True
    then have "BOARD_HEIGHT - length nb = Suc (BOARD_HEIGHT - Suc (length nb))"
      by simp
    with True "1" show ?thesis
      by (subst unshiftRows.simps) (simp add: replicate_app_Cons_same)
  next
    case False
    then show ?thesis
      by (subst unshiftRows.simps) simp
  qed
qed

lemma kept_iff:
  assumes "None \<notin> set row"
  shows "list_ex (\<lambda>cell. cell = Some 0) row \<longleftrightarrow> (\<exists>c\<in>set row. \<not> truthy c)"
proof -
  have "\<And>c. c \<in> set row \<Longrightarrow> (c = Some 0) = (\<not> truthy c)"
    using assms by (case_tac c) (auto simp: truthy_def)
  then show ?thesis
    by (auto simp: list_ex_iff)
qed

text \<open>
  C1. On a board of \<open>BOARD_HEIGHT\<close> rows whose cells are numbers, \<open>clearLines\<close> returns
  the rows that have an empty (falsy) cell, in their order, below as many empty rows as
  there are rows with every cell filled (truthy); the count it returns is the number of
  those complete rows; the result has \<open>BOARD_HEIGHT\<close> rows and the count is at most
  \<open>BOARD_HEIGHT\<close>.
\<close>

theorem clearLines_removes_complete_rows:
  assumes rows: "length b = BOARD_HEIGHT"
    and numbers: "\<forall>row\<in>set b. None \<notin> set row"
  shows "clearLines b =
           (replicate (length (filter (\<lambda>row. \<forall>c\<in>set row. truthy c) b))
              (replicate BOARD_WIDTH (Some 0))
            @ filter (\<lambda>row. \<exists>c\<in>set row. \<not> truthy c) b,
            int (length (filter (\<lambda>row. \<forall>c\<in>set row. truthy c) b)))
         \<and> length (fst (clearLines b)) = BOARD_HEIGHT
         \<and> length (filter (\<lambda>row. \<forall>c\<in>set row. truthy c) b) \<le> BOARD_HEIGHT"
proof -
  let ?kept = "filter (\<lambda>row. \<exists>c\<in>set row. \<not> truthy c) b"
  let ?full = "filter (\<lambda>row. \<forall>c\<in>set row. truthy c) b"
  have kept: "filter (\<lambda>row. list_ex (\<lambda>cell. cell = Some 0) row) b = ?kept"
    using numbers by (intro filter_cong refl) (simp add: kept_iff)
  have "?full = filter (\<lambda>row. \<not> (\<exists>c\<in>set row. \<not> truthy c)) b"
    by simp
  then have split: "length ?kept + length ?full = BOARD_HEIGHT"
    using sum_length_filter_compl [of "\<lambda>row. \<exists>c\<in>set row. \<not> truthy c" b] rows
    by simp
  then have n: "BOARD_HEIGHT - length ?kept = length ?full"
    by arith
  have "clearLines b = (unshiftRows ?kept, int BOARD_HEIGHT - int (length ?kept))"
    by (simp only: clearLines_def kept Let_def)
  also have "unshiftRows ?kept = replicate (length ?full) (replicate BOARD_WIDTH (Some 0)) @ ?kept"
    by (simp only: unshiftRows_eq n)
  also have "int BOARD_HEIGHT - int (length ?kept) = int (length ?full)"
    using split by linarith
  finally have result: "clearLines b =
      (replicate (length ?full) (replicate BOARD_WIDTH (Some 0)) @ ?kept, int (length ?full))" .
  have "length (fst (clearLines b)) = length ?full + length ?kept"
    by (simp only: result fst_conv length_append length_replicate)
  then have len: "length (fst (clearLines b)) = BOARD_HEIGHT"
    using split by linarith
  moreover have "length ?full \<le> BOARD_HEIGHT"
    using split by arith
  ultimately show ?thesis
    using result len by blast
qed

text \<open>On \<open>board1\<close> the complete row goes, one empty row comes on top, the count is 1.\<close>

theorem clearLines_removes_complete_rows_witness:
  "length board1 = BOARD_HEIGHT \<and>
   clearLines board1 =
     (replicate 10 (Some 0) # replicate 18 (replicate 10 (Some 0))
        @ [Some 0 # replicate 9 (Some 1)], 1)"
proof -
  have rows: "length board1 = BOARD_HEIGHT"
    by (simp add: board1_def BOARD_HEIGHT_def)
  have numbers: "\<forall>row\<in>set board1. None \<notin> set row"
    by (simp add: board1_def)
  have full: "filter (\<lambda>row. \<forall>c\<in>set row. truthy c) board1 = [replicate 10 (Some 1)]"
    by (simp add: board1_def truthy_def)
  have kept: "filter (\<lambda>row. \<exists>c\<in>set row. \<not> truthy c) board1 =
      replicate 18 (replicate 10 (Some 0)) @ [Some 0 # replicate 9 (Some 1)]"
    by (simp add: board1_def truthy_def)
  show ?thesis
    using clearLines_removes_complete_rows [OF rows numbers]
    unfolding full kept by (simp add: rows BOARD_WIDTH_def)
qed

section \<open>The collision check\<close>

lemma validCells_Cons:
  assumes "BOARD_HEIGHT \<le> length b"
  shows "validCells b p y x (c # cs) =
           (if truthy c \<and> \<not> contractCell b p y x then Inr False
            else validCells b p y (Suc x) cs)"
proof -
  have row: "jsRow b r = Some (b ! nat r)" if "0 \<le> r" "r < int BOARD_HEIGHT" for r
    using that assms by (simp add: jsRow_def)
  show ?thesis
    by (auto simp: contractCell_def cellAt_def row Let_def)
qed

lemma validCells_eq:
  assumes "BOARD_HEIGHT \<le> length b"
  shows "validCells b p y x cs =
           Inr (\<forall>i<length cs. truthy (cs ! i) \<longrightarrow> contractCell b p y (x + i))"
proof (induction cs arbitrary: x)
  case Nil
  show ?case by simp
next
  case (Cons c cs)
  show ?case
    unfolding validCells_Cons [OF assms] Cons.IH
    by (auto simp: All_less_Suc2)
qed

lemma validRows_eq:
  assumes "BOARD_HEIGHT \<le> length b"
  shows "validRows b p y rs =
           Inr (\<forall>j<length rs. \<forall>i<length (rs ! j).
                  truthy (rs ! j ! i) \<longrightarrow> contractCell b p (y + j) i)"
proof (induction rs arbitrary: y)
  case Nil
  show ?case by simp
next
  case (Cons r rs)
  show ?case
    by (simp add: validCells_eq [OF assms] Cons.IH All_less_Suc2)
qed

text \<open>
  C2. On a board that has its \<open>BOARD_HEIGHT\<close> rows, \<open>isValidPosition\<close> raises nothing and
  returns true exactly when every set (truthy) cell \<open>(x, y)\<close> of the shape it checks
  meets \<open>contractCell\<close>: column in \<open>[0, BOARD_WIDTH)\<close>, row below \<open>BOARD_HEIGHT\<close>, and the
  board cell not filled when the row is not negative. The function only reads the board
  and the piece and returns the boolean; it has no state to write to.
\<close>

theorem isValidPosition_iff_contract:
  assumes "BOARD_HEIGHT \<le> length b"
  shows "isValidPosition b piece newPosition newShape =
           Inr (\<forall>y<length (case newShape of None \<Rightarrow> shape piece | Some s \<Rightarrow> s).
                \<forall>x<length ((case newShape of None \<Rightarrow> shape piece | Some s \<Rightarrow> s) ! y).
                  truthy ((case newShape of None \<Rightarrow> shape piece | Some s \<Rightarrow> s) ! y ! x)
                    \<longrightarrow> contractCell b newPosition y x)"
proof -
  let ?shape = "case newShape of None \<Rightarrow> shape piece | Some s \<Rightarrow> s"
  have "isValidPosition b piece newPosition newShape = validRows b newPosition 0 ?shape"
    by (simp only: isValidPosition_def)
  also have "\<dots> = Inr (\<forall>j<length ?shape. \<forall>i<length (?shape ! j).
                        truthy (?shape ! j ! i) \<longrightarrow> contractCell b newPosition (0 + j) i)"
    by (rule validRows_eq [OF assms])
  finally show ?thesis
    by simp
qed

text \<open>The T piece two rows above the filled rows of \<open>board1\<close>: the check passes, and the
  contract holds of its set cell \<open>(0, 1)\<close>.\<close>

theorem isValidPosition_iff_contract_witness:
  "BOARD_HEIGHT \<le> length board1 \<and>
   isValidPosition board1 (createRandomPiece Tet_T) \<lparr>pos_x = 3, pos_y = 16\<rparr> None = Inr True \<and>
   contractCell board1 \<lparr>pos_x = 3, pos_y = 16\<rparr> 1 0"
proof -
  have rows: "BOARD_HEIGHT \<le> length board1"
    by (simp add: board1_def BOARD_HEIGHT_def)
  have run: "isValidPosition board1 (createRandomPiece Tet_T) \<lparr>pos_x = 3, pos_y = 16\<rparr> None
      = Inr True"
    by code_simp
  have "\<forall>y<length (shape (createRandomPiece Tet_T)).
          \<forall>x<length (shape (createRandomPiece Tet_T) ! y).
            truthy (shape (createRandomPiece Tet_T) ! y ! x)
              \<longrightarrow> contractCell board1 \<lparr>pos_x = 3, pos_y = 16\<rparr> y x"
    using isValidPosition_iff_contract [OF rows, of "createRandomPiece Tet_T"
        "\<lparr>pos_x = 3, pos_y = 16\<rparr>" None] run
    by simp
  then have "contractCell board1 \<lparr>pos_x = 3, pos_y = 16\<rparr> 1 0"
    by (simp add: createRandomPiece_def nums_def truthy_def)
  with rows run show ?thesis
    by simp
qed

section \<open>Rotation\<close>

text \<open>A matrix of \<open>R \<ge> 1\<close> rows and \<open>C\<close> columns rotates to one of \<open>C\<close> rows and \<open>R\<close>
  columns, with the entry \<open>(i, j)\<close> taken from \<open>(R - 1 - j, i)\<close>.\<close>

lemma rotatePiece_rect:
  assumes rows: "length sh = R" and pos: "0 < R"
    and cols: "\<forall>row\<in>set sh. length row = C"
  shows "\<exists>t. rotatePiece sh = Inr t \<and> length t = C \<and> (\<forall>row\<in>set t. length row = R) \<and>
           (\<forall>i<C. \<forall>j<R. t ! i ! j = sh ! (R - 1 - j) ! i)"
proof -
  let ?t = "map (\<lambda>index. rev (map (\<lambda>row. jsNth row (int index)) sh)) [0..<C]"
  from rows pos obtain r0 rs where sh: "sh = r0 # rs"
    by (cases sh) auto
  with cols have "length r0 = C"
    by simp
  with sh have run: "rotatePiece sh = Inr ?t"
    by (simp add: rotatePiece_def)
  have entry: "?t ! i ! j = sh ! (R - 1 - j) ! i" if "i < C" "j < R" for i j
  proof -
    have "R - 1 - j < length sh"
      using rows that by arith
    then have "sh ! (R - 1 - j) \<in> set sh"
      by (rule nth_mem)
    with cols that have "i < length (sh ! (R - 1 - j))"
      by simp
    then have "jsNth (sh ! (R - 1 - j)) (int i) = sh ! (R - 1 - j) ! i"
      by (simp add: jsNth_def)
    with that rows show ?thesis
      by (simp add: rev_nth)
  qed
  have "length ?t = C" "\<forall>row\<in>set ?t. length row = R"
    using rows by auto
  with run entry show ?thesis
    by blast
qed

text \<open>
  C6. For every shape matrix of \<open>R \<ge> 1\<close> rows, all of the same length \<open>C \<ge> 1\<close>, four
  applications of \<open>rotatePiece\<close> each return a matrix, and the fourth returns the matrix
  the first was given.
\<close>

theorem rotatePiece_four_times:
  assumes nonempty: "sh \<noteq> []"
    and cols: "\<forall>row\<in>set sh. length row = C"
    and wide: "0 < C"
  shows "\<exists>a b c. rotatePiece sh = Inr a \<and> rotatePiece a = Inr b \<and>
           rotatePiece b = Inr c \<and> rotatePiece c = Inr sh"
proof -
  define R where "R = length sh"
  have R: "length sh = R" "0 < R"
    using nonempty by (simp_all add: R_def)
  from rotatePiece_rect [OF R cols] obtain a where
    a: "rotatePiece sh = Inr a" "length a = C" "\<forall>row\<in>set a. length row = R"
      "\<forall>i<C. \<forall>j<R. a ! i ! j = sh ! (R - 1 - j) ! i"
    by blast
  from rotatePiece_rect [OF a(2) wide a(3)] obtain b where
    b: "rotatePiece a = Inr b" "length b = R" "\<forall>row\<in>set b. length row = C"
      "\<forall>i<R. \<forall>j<C. b ! i ! j = a ! (C - 1 - j) ! i"
    by blast
  from rotatePiece_rect [OF b(2) R(2) b(3)] obtain c where
    c: "rotatePiece b = Inr c" "length c = C" "\<forall>row\<in>set c. length row = R"
      "\<forall>i<C. \<forall>j<R. c ! i ! j = b ! (R - 1 - j) ! i"
    by blast
  from rotatePiece_rect [OF c(2) wide c(3)] obtain d where
    d: "rotatePiece c = Inr d" "length d = R" "\<forall>row\<in>set d. length row = C"
      "\<forall>i<R. \<forall>j<C. d ! i ! j = c ! (C - 1 - j) ! i"
    by blast
  have "d = sh"
  proof (rule nth_equalityI)
    show "length d = length sh"
      using d(2) R(1) by simp
  next
    fix i assume "i < length d"
    then have i: "i < R"
      using d(2) by simp
    have len_d: "length (d ! i) = C"
      using d(3) i d(2) by simp
    have len_sh: "length (sh ! i) = C"
      using cols i R(1) by simp
    show "d ! i = sh ! i"
    proof (rule nth_equalityI)
      show "length (d ! i) = length (sh ! i)"
        using len_d len_sh by simp
    next
      fix j assume "j < length (d ! i)"
      then have j: "j < C"
        using len_d by simp
      have i': "R - 1 - i < R" and j': "C - 1 - j < C"
        using i j by arith+
      have "d ! i ! j = c ! (C - 1 - j) ! i"
        using d(4) i j by simp
      also have "\<dots> = b ! (R - 1 - i) ! (C - 1 - j)"
        using c(4) i j' by simp
      also have "\<dots> = a ! (C - 1 - (C - 1 - j)) ! (R - 1 - i)"
        using b(4) i' j' by simp
      also have "\<dots> = sh ! (R - 1 - (R - 1 - i)) ! (C - 1 - (C - 1 - j))"
        using a(4) i' j' by simp
      also have "\<dots> = sh ! i ! j"
        using i j by simp
      finally show "d ! i ! j = sh ! i ! j" .
    qed
  qed
  with a(1) b(1) c(1) d(1) show ?thesis
    by blast
qed

text \<open>A matrix of two rows and three columns: its rotation, and the four rotations.\<close>

theorem rotatePiece_four_times_witness:
  "rotatePiece [nums [1, 2, 3], nums [4, 5, 6]] = Inr [nums [4, 1], nums [5, 2], nums [6, 3]] \<and>
   (\<exists>a b c. rotatePiece [nums [1, 2, 3], nums [4, 5, 6]] = Inr a \<and> rotatePiece a = Inr b \<and>
      rotatePiece b = Inr c \<and> rotatePiece c = Inr [nums [1, 2, 3], nums [4, 5, 6]])"
proof -
  have "rotatePiece [nums [1, 2, 3], nums [4, 5, 6]] = Inr [nums [4, 1], nums [5, 2], nums [6, 3]]"
    by code_simp
  moreover have "[nums [1, 2, 3], nums [4, 5, 6]] \<noteq> []"
    by simp
  moreover have "\<forall>row\<in>set [nums [1, 2, 3], nums [4, 5, 6]]. length row = 3"
    by (simp add: nums_def)
  ultimately show ?thesis
    using rotatePiece_four_times [of "[nums [1, 2, 3], nums [4, 5, 6]]" 3]
    by simp
qed

text \<open>With no row there is nothing to rotate: \<^verbatim>\<open>shape[0].map\<close> raises.\<close>

lemma rotatePiece_empty: "rotatePiece [] = Inl TypeError"
  by (simp add: rotatePiece_def)

section \<open>Placing a piece\<close>

text \<open>Reading an array after a write to it.\<close>

lemma jsNth_jsSet:
  "jsNth (jsSet row X v) c = (if c = X \<and> 0 \<le> X then v else jsNth row c)"
proof (cases "X < 0")
  case True
  then show ?thesis
    by (simp add: jsSet_def)
next
  case False
  note nonneg = this
  show ?thesis
  proof (cases "nat X < length row")
    case True
    with nonneg show ?thesis
      by (auto simp: jsSet_def jsNth_def nth_list_update)
  next
    case False
    with nonneg show ?thesis
      by (auto simp: jsSet_def jsNth_def nth_append)
  qed
qed

lemma setCell_cellAt:
  assumes "0 \<le> Y" and "Y < int (length nb)"
  shows "\<exists>nb'. setCell nb Y X = Inr nb' \<and> length nb' = length nb \<and>
           (\<forall>r c. cellAt nb' r c =
                    (if r = Y \<and> c = X \<and> 0 \<le> X then Some 1 else cellAt nb r c))"
  using assms
  by (auto simp: setCell_def jsRow_def cellAt_def jsNth_jsSet nth_list_update)


lemma placeCells_cellAt:
  assumes "\<forall>i<length cs. truthy (cs ! i) \<longrightarrow> pos_y p + int y < int (length nb)"
  shows "\<exists>nb'. placeCells nb p y x cs = Inr nb' \<and> length nb' = length nb \<and>
           (\<forall>r c. cellAt nb' r c =
              (if 0 \<le> r \<and> 0 \<le> c \<and> r = pos_y p + int y \<and>
                  (\<exists>i<length cs. truthy (cs ! i) \<and> c = pos_x p + int (x + i))
               then Some 1 else cellAt nb r c))"
  using assms
proof (induction cs arbitrary: nb x)
  case Nil
  show ?case by simp
next
  case (Cons a cs)
  have rest: "\<forall>i<length cs. truthy (cs ! i) \<longrightarrow> pos_y p + int y < int (length nb)"
    using Cons.prems by auto
  show ?case
  proof (cases "truthy a \<and> 0 \<le> pos_y p + int y")
    case False
    from Cons.IH [OF rest, of "Suc x"] obtain nb' where
      "placeCells nb p y (Suc x) cs = Inr nb'" "length nb' = length nb"
      "\<forall>r c. cellAt nb' r c =
              (if 0 \<le> r \<and> 0 \<le> c \<and> r = pos_y p + int y \<and>
                  (\<exists>i<length cs. truthy (cs ! i) \<and> c = pos_x p + int (Suc x + i))
               then Some 1 else cellAt nb r c)"
      by blast
    with False show ?thesis
      by (auto simp: Ex_less_Suc2 Let_def)
  next
    case True
    then have "pos_y p + int y < int (length nb)"
      using Cons.prems by auto
    with True setCell_cellAt [of "pos_y p + int y" nb "pos_x p + int x"] obtain nb1 where
      nb1: "setCell nb (pos_y p + int y) (pos_x p + int x) = Inr nb1" "length nb1 = length nb"
        "\<forall>r c. cellAt nb1 r c =
           (if r = pos_y p + int y \<and> c = pos_x p + int x \<and> 0 \<le> pos_x p + int x
            then Some 1 else cellAt nb r c)"
      by blast
    from rest nb1(2) have
      "\<forall>i<length cs. truthy (cs ! i) \<longrightarrow> pos_y p + int y < int (length nb1)"
      by simp
    from Cons.IH [OF this, of "Suc x"] obtain nb' where
      nb': "placeCells nb1 p y (Suc x) cs = Inr nb'" "length nb' = length nb1"
      "\<forall>r c. cellAt nb' r c =
              (if 0 \<le> r \<and> 0 \<le> c \<and> r = pos_y p + int y \<and>
                  (\<exists>i<length cs. truthy (cs ! i) \<and> c = pos_x p + int (Suc x + i))
               then Some 1 else cellAt nb1 r c)"
      by blast
    have "placeCells nb p y x (a # cs) = Inr nb'"
      using True nb1(1) nb'(1) by (simp add: Let_def)
    moreover have "length nb' = length nb"
      using nb1(2) nb'(2) by simp
    moreover have "cellAt nb' r c =
              (if 0 \<le> r \<and> 0 \<le> c \<and> r = pos_y p + int y \<and>
                  (\<exists>i<length (a # cs). truthy ((a # cs) ! i) \<and> c = pos_x p + int (x + i))
               then Some 1 else cellAt nb r c)" for r c
      using True by (auto simp: nb'(3) nb1(3) Ex_less_Suc2)
    ultimately show ?thesis
      by blast
  qed
qed

lemma placeRows_cellAt:
  assumes "\<forall>j<length rs. \<forall>i<length (rs ! j).
             truthy (rs ! j ! i) \<longrightarrow> pos_y p + int (y + j) < int (length nb)"
  shows "\<exists>nb'. placeRows nb p y rs = Inr nb' \<and> length nb' = length nb \<and>
           (\<forall>r c. cellAt nb' r c =
              (if 0 \<le> r \<and> 0 \<le> c \<and>
                  (\<exists>j<length rs. \<exists>i<length (rs ! j). truthy (rs ! j ! i) \<and>
                     r = pos_y p + int (y + j) \<and> c = pos_x p + int i)
               then Some 1 else cellAt nb r c))"
  using assms
proof (induction rs arbitrary: nb y)
  case Nil
  show ?case by simp
next
  case (Cons a rs)
  have "\<forall>i<length a. truthy (a ! i) \<longrightarrow> pos_y p + int y < int (length nb)"
    using Cons.prems by fastforce
  from placeCells_cellAt [OF this, of 0] obtain nb1 where
    nb1: "placeCells nb p y 0 a = Inr nb1" "length nb1 = length nb"
      "\<forall>r c. cellAt nb1 r c =
              (if 0 \<le> r \<and> 0 \<le> c \<and> r = pos_y p + int y \<and>
                  (\<exists>i<length a. truthy (a ! i) \<and> c = pos_x p + int (0 + i))
               then Some 1 else cellAt nb r c)"
    by blast
  have "\<forall>j<length rs. \<forall>i<length (rs ! j).
             truthy (rs ! j ! i) \<longrightarrow> pos_y p + int (Suc y + j) < int (length nb1)"
    using Cons.prems nb1(2) by fastforce
  from Cons.IH [OF this] obtain nb' where
    nb': "placeRows nb1 p (Suc y) rs = Inr nb'" "length nb' = length nb1"
      "\<forall>r c. cellAt nb' r c =
              (if 0 \<le> r \<and> 0 \<le> c \<and>
                  (\<exists>j<length rs. \<exists>i<length (rs ! j). truthy (rs ! j ! i) \<and>
                     r = pos_y p + int (Suc y + j) \<and> c = pos_x p + int i)
               then Some 1 else cellAt nb1 r c)"
    by blast
  have "placeRows nb p y (a # rs) = Inr nb'"
    using nb1(1) nb'(1) by simp
  moreover have "length nb' = length nb"
    using nb1(2) nb'(2) by simp
  moreover have "cellAt nb' r c =
              (if 0 \<le> r \<and> 0 \<le> c \<and>
                  (\<exists>j<length (a # rs). \<exists>i<length ((a # rs) ! j). truthy ((a # rs) ! j ! i) \<and>
                     r = pos_y p + int (y + j) \<and> c = pos_x p + int i)
               then Some 1 else cellAt nb r c)" for r c
    by (auto simp: nb'(3) nb1(3) Ex_less_Suc2)
  ultimately show ?case
    by blast
qed


text \<open>
  C3, as the code has it. When no set cell of the piece maps to a row at or past the end of
  the board, \<open>placePiece\<close> returns a board of as many rows, on which a cell reads 1
  exactly where a set shape cell maps onto it with a row and a column that are not
  negative, and reads as before everywhere else. A set cell that maps to a negative row
  is dropped without an error.
\<close>

theorem placePiece_marks_mapped_cells:
  assumes "\<forall>y<length (shape piece). \<forall>x<length (shape piece ! y).
             truthy (shape piece ! y ! x) \<longrightarrow> pos_y (position piece) + int y < int (length b)"
  shows "\<exists>nb. placePiece b piece = Inr nb \<and> length nb = length b \<and>
           (\<forall>r c. cellAt nb r c =
              (if 0 \<le> r \<and> 0 \<le> c \<and> mapsOnto piece r c then Some 1 else cellAt b r c))"
proof -
  have "\<forall>j<length (shape piece). \<forall>i<length (shape piece ! j).
          truthy (shape piece ! j ! i) \<longrightarrow> pos_y (position piece) + int (0 + j) < int (length b)"
    using assms by simp
  from placeRows_cellAt [OF this] show ?thesis
    by (simp add: placePiece_def mapsOnto_def)
qed

text \<open>The O piece with its upper row at row \<open>-1\<close>: its lower row is marked in row 0, its
  upper row is dropped, the cells beside and below read as before.\<close>

lemma pieceAbove_cells:
  "shape pieceAbove = [[Some 1, Some 1], [Some 1, Some 1]]" "position pieceAbove = \<lparr>pos_x = 4, pos_y = - 1\<rparr>"
  by (simp_all add: pieceAbove_def createRandomPiece_def nums_def)

theorem placePiece_marks_mapped_cells_witness:
  "\<exists>nb. placePiece EMPTY_BOARD pieceAbove = Inr nb \<and> length nb = length EMPTY_BOARD \<and>
      cellAt nb 0 4 = Some 1 \<and> cellAt nb 0 5 = Some 1 \<and> cellAt nb 0 6 = Some 0 \<and>
      cellAt nb 1 4 = Some 0"
proof -
  have above: "\<forall>y<length (shape pieceAbove). \<forall>x<length (shape pieceAbove ! y).
      truthy (shape pieceAbove ! y ! x) \<longrightarrow>
        pos_y (position pieceAbove) + int y < int (length EMPTY_BOARD)"
    by (simp add: pieceAbove_cells EMPTY_BOARD_def BOARD_HEIGHT_def)
  have on: "mapsOnto pieceAbove 0 4" "mapsOnto pieceAbove 0 5"
    by (simp_all add: mapsOnto_def pieceAbove_cells truthy_def numeral_2_eq_2 Ex_less_Suc)
  have off: "\<not> mapsOnto pieceAbove 0 6" "\<not> mapsOnto pieceAbove 1 4"
    by (simp_all add: mapsOnto_def pieceAbove_cells truthy_def numeral_2_eq_2 Ex_less_Suc)
  have before: "cellAt EMPTY_BOARD 0 6 = Some 0" "cellAt EMPTY_BOARD 1 4 = Some 0"
    by code_simp+
  from placePiece_marks_mapped_cells [OF above] on off before show ?thesis
    by auto
qed


text \<open>
  C3 as stated, for every piece, fails: where a set cell maps to a row past the last one,
  \<^verbatim>\<open>newBoard[boardY]\<close> is \<^verbatim>\<open>undefined\<close> and the assignment raises, so no board is
  returned. The O piece at row 19 has its lower row at row 20.
\<close>

theorem placePiece_below_board_counterexample:
  "placePiece EMPTY_BOARD pieceBelow = Inl TypeError"
  by code_simp

text \<open>
  What \<open>movePieceDown\<close> passes to \<open>placePiece\<close> is a piece that \<open>isValidPosition\<close>
  accepted at its position; such a piece has no set cell past the last row, and placing it
  raises nothing.
\<close>

lemma valid_piece_can_be_placed:
  assumes checked: "BOARD_HEIGHT \<le> length b'"
    and valid: "isValidPosition b' piece (position piece) None = Inr True"
    and rows: "length b = BOARD_HEIGHT"
  shows "\<exists>nb. placePiece b piece = Inr nb"
proof -
  from valid have "\<forall>j<length (shape piece). \<forall>i<length (shape piece ! j).
      truthy (shape piece ! j ! i) \<longrightarrow> contractCell b' (position piece) (0 + j) i"
    by (simp add: isValidPosition_def validRows_eq [OF checked])
  then have "\<forall>j<length (shape piece). \<forall>i<length (shape piece ! j).
      truthy (shape piece ! j ! i) \<longrightarrow>
        pos_y (position piece) + int (0 + j) < int (length (map (\<lambda>row. row) b))"
    using rows by (simp add: contractCell_def Let_def)
  from placeRows_cellAt [OF this] show ?thesis
    by (auto simp: placePiece_def)
qed

section \<open>What an event changes\<close>

text \<open>\<open>placePiece\<close> and \<open>clearLines\<close> keep the number of rows.\<close>

lemma setCell_length: "setCell nb Y X = Inr nb' \<Longrightarrow> length nb' = length nb"
  by (auto simp: setCell_def split: option.splits)

lemma placeCells_length: "placeCells nb p y x cs = Inr nb' \<Longrightarrow> length nb' = length nb"
proof (induction cs arbitrary: nb x)
  case Nil
  then show ?case by simp
next
  case (Cons c cs)
  then show ?case
    by (auto simp: Let_def split: if_splits sum.splits dest: setCell_length)
qed

lemma placeRows_length: "placeRows nb p y rs = Inr nb' \<Longrightarrow> length nb' = length nb"
proof (induction rs arbitrary: nb y)
  case Nil
  then show ?case by simp
next
  case (Cons r rs)
  then show ?case
    by (auto split: sum.splits dest: placeCells_length)
qed

lemma placePiece_length: "placePiece b piece = Inr nb \<Longrightarrow> length nb = length b"
  by (auto simp: placePiece_def dest: placeRows_length)

lemma clearLines_short:
  assumes "length nb \<le> BOARD_HEIGHT"
  shows "length (fst (clearLines nb)) = BOARD_HEIGHT"
    and "0 \<le> snd (clearLines nb)"
proof -
  let ?kept = "filter (\<lambda>row. list_ex (\<lambda>cell. cell = Some 0) row) nb"
  have "length ?kept \<le> length nb"
    by (rule length_filter_le)
  with assms have le: "length ?kept \<le> BOARD_HEIGHT"
    by linarith
  then show "length (fst (clearLines nb)) = BOARD_HEIGHT"
    by (simp add: clearLines_def unshiftRows_eq Let_def)
  from le show "0 \<le> snd (clearLines nb)"
    by (simp add: clearLines_def Let_def)
qed

text \<open>\<open>movePieceDown\<close> either changes the piece only, or is a landing.\<close>

lemma movePieceDown_shape:
  "(\<exists>piece. fst (movePieceDown s rnd) = s\<lparr>currentPiece := piece\<rparr>) \<or>
   (\<exists>cp nb go piece.
      currentPiece s = Some cp \<and> \<not> gameOver s \<and> \<not> isPaused s \<and>
      placePiece (board s) cp = Inr nb \<and>
      fst (movePieceDown s rnd) =
        s\<lparr>board := fst (clearLines nb), lines := lines s + snd (clearLines nb),
          score := score s + snd (clearLines nb) * 100 * level s,
          gameOver := go, currentPiece := piece\<rparr>)"
proof (cases "currentPiece s")
  case None
  then have "fst (movePieceDown s rnd) = s\<lparr>currentPiece := None\<rparr>"
    by (simp add: movePieceDown_def)
  then show ?thesis by blast
next
  case (Some cp)
  note cp = this
  show ?thesis
  proof (cases "gameOver s \<or> isPaused s")
    case True
    with cp have "fst (movePieceDown s rnd) = s\<lparr>currentPiece := Some cp\<rparr>"
      by (simp add: movePieceDown_def)
    then show ?thesis by blast
  next
    case False
    note active = this
    let ?down = "(position cp)\<lparr>pos_y := pos_y (position cp) + 1\<rparr>"
    show ?thesis
    proof (cases "isValidPosition (board s) cp ?down None")
      case (Inl e)
      with cp active have "fst (movePieceDown s rnd) = s\<lparr>currentPiece := Some cp\<rparr>"
        by (simp add: movePieceDown_def)
      then show ?thesis by blast
    next
      case (Inr ok)
      note check = this
      show ?thesis
      proof (cases ok)
        case True
        with cp active check have
          "fst (movePieceDown s rnd) = s\<lparr>currentPiece := Some (cp\<lparr>position := ?down\<rparr>)\<rparr>"
          by (simp add: movePieceDown_def)
        then show ?thesis by blast
      next
        case False
        note landing = this
        show ?thesis
        proof (cases "placePiece (board s) cp")
          case (Inl e)
          with cp active check landing have
            "fst (movePieceDown s rnd) = s\<lparr>currentPiece := Some cp\<rparr>"
            by (simp add: movePieceDown_def)
          then show ?thesis by blast
        next
          case (Inr nb)
          let ?s' = "s\<lparr>board := fst (clearLines nb), lines := lines s + snd (clearLines nb),
               score := score s + snd (clearLines nb) * 100 * level s\<rparr>"
          let ?next = "createRandomPiece rnd"
          have "fst (movePieceDown s rnd) = ?s'\<lparr>gameOver := False, currentPiece := Some cp\<rparr>
              \<or> fst (movePieceDown s rnd) = ?s'\<lparr>gameOver := True, currentPiece := Some cp\<rparr>
              \<or> fst (movePieceDown s rnd) = ?s'\<lparr>gameOver := False, currentPiece := Some ?next\<rparr>"
            using cp active check landing Inr
            by (cases "isValidPosition (board s) ?next (position ?next) None")
              (simp_all add: movePieceDown_def Let_def split: bool.split)
          with cp active Inr show ?thesis
            by blast
        qed
      qed
    qed
  qed
qed

lemma movePieceDown_fields:
  assumes "length (board s) = BOARD_HEIGHT"
  shows "level (fst (movePieceDown s rnd)) = level s \<and>
         length (board (fst (movePieceDown s rnd))) = BOARD_HEIGHT \<and>
         lines s \<le> lines (fst (movePieceDown s rnd))"
proof -
  consider (kept) piece where "fst (movePieceDown s rnd) = s\<lparr>currentPiece := piece\<rparr>"
    | (landed) cp nb go piece where "placePiece (board s) cp = Inr nb"
        "fst (movePieceDown s rnd) =
          s\<lparr>board := fst (clearLines nb), lines := lines s + snd (clearLines nb),
            score := score s + snd (clearLines nb) * 100 * level s,
            gameOver := go, currentPiece := piece\<rparr>"
    using movePieceDown_shape [of s rnd] by blast
  then show ?thesis
  proof cases
    case kept
    show ?thesis
      unfolding kept using assms by simp
  next
    case landed
    from landed(1) have "length nb = length (board s)"
      by (rule placePiece_length)
    with assms have le: "length nb \<le> BOARD_HEIGHT"
      by simp
    show ?thesis
      unfolding landed(2)
      using clearLines_short(1) [OF le] clearLines_short(2) [OF le] by simp
  qed
qed

lemma handleKeyPress_fields:
  assumes "length (board s) = BOARD_HEIGHT"
  shows "level (fst (handleKeyPress s key rnd)) = level s \<and>
         length (board (fst (handleKeyPress s key rnd))) = BOARD_HEIGHT \<and>
         lines s \<le> lines (fst (handleKeyPress s key rnd))"
proof -
  note down = movePieceDown_fields [OF assms, of rnd]
  show ?thesis
    using assms down
    by (simp add: handleKeyPress_def Let_def split: option.split sum.split bool.split)
qed

lemma fire_fields:
  assumes "length (board s) = BOARD_HEIGHT"
  shows "level (fst (fire s ev)) = level s \<and>
         length (board (fst (fire s ev))) = BOARD_HEIGHT \<and>
         lines s \<le> lines (fst (fire s ev))"
proof (cases ev)
  case (Tick rnd)
  then show ?thesis
    using movePieceDown_fields [OF assms] by simp
next
  case (KeyDown key rnd)
  then show ?thesis
    using handleKeyPress_fields [OF assms] by simp
next
  case PauseButton
  then show ?thesis
    using assms by (simp add: pauseButtonClick_def)
qed

lemma runEffects_fields:
  "board (runEffects prev rnd s) = board s"
  "lines (runEffects prev rnd s) = lines s"
  "score (runEffects prev rnd s) = score s"
  "level (runEffects prev rnd s) = (if lines s \<noteq> lines prev then lines s div 10 + 1 else level s)"
  by (simp_all add: runEffects_def levelEffect_def Let_def)

lemma runEffects_same: "runEffects s rnd s = s"
  by (auto simp: runEffects_def)

section \<open>Score and lines at a landing\<close>

text \<open>
  C4. At a landing, that is when an active piece cannot move down and is placed, let \<open>n\<close>
  be the count \<open>clearLines\<close> returns for the board with the piece placed. On a board of
  \<open>BOARD_HEIGHT\<close> rows \<open>n\<close> is the number of rows removed; \<open>movePieceDown\<close> adds
  \<open>n * 100 * level\<close> to the score, with the level the state had before the event, and
  \<open>n\<close> to the lines, and the effects that run after the event change neither.
\<close>

theorem landing_adds_score_and_lines:
  assumes piece: "currentPiece s = Some cp"
    and active: "\<not> gameOver s" "\<not> isPaused s"
    and landing: "isValidPosition (board s) cp
                    ((position cp)\<lparr>pos_y := pos_y (position cp) + 1\<rparr>) None = Inr False"
    and placed: "placePiece (board s) cp = Inr newBoard"
    and rows: "length (board s) = BOARD_HEIGHT"
  shows "snd (clearLines newBoard) =
           int (length (filter (\<lambda>row. \<not> list_ex (\<lambda>cell. cell = Some 0) row) newBoard))
         \<and> score (fst (movePieceDown s rnd)) = score s + snd (clearLines newBoard) * 100 * level s
         \<and> lines (fst (movePieceDown s rnd)) = lines s + snd (clearLines newBoard)
         \<and> score (step s (Tick rnd) rnd') = score s + snd (clearLines newBoard) * 100 * level s
         \<and> lines (step s (Tick rnd) rnd') = lines s + snd (clearLines newBoard)"
proof -
  let ?kept = "\<lambda>row. list_ex (\<lambda>cell. cell = Some 0) row"
  from placed rows have len: "length newBoard = BOARD_HEIGHT"
    by (simp add: placePiece_length)
  have "length (filter ?kept newBoard) + length (filter (\<lambda>row. \<not> ?kept row) newBoard)
          = length newBoard"
    by (rule sum_length_filter_compl)
  with len have count: "snd (clearLines newBoard) =
      int (length (filter (\<lambda>row. \<not> ?kept row) newBoard))"
    by (simp add: clearLines_def Let_def)
  have result: "score (fst (movePieceDown s rnd)) = score s + snd (clearLines newBoard) * 100 * level s
      \<and> lines (fst (movePieceDown s rnd)) = lines s + snd (clearLines newBoard)"
    using piece active landing placed
    by (simp add: movePieceDown_def Let_def split: sum.split bool.split)
  with count show ?thesis
    by (simp add: step_def runEffects_fields)
qed

text \<open>In \<open>landingState\<close> two rows are cleared at level 3: the score goes from 1000 to
  1600, the lines from 29 to 31, and the level effect then sets the level to 4.\<close>

theorem landing_adds_score_and_lines_witness:
  "currentPiece landingState = Some landingPiece \<and>
   placePiece (board landingState) landingPiece = Inr landedBoard \<and>
   snd (clearLines landedBoard) = 2 \<and> score landingState = 1000 \<and> level landingState = 3 \<and>
   lines landingState = 29 \<and>
   score (step landingState (Tick Tet_T) Tet_T) = 1600 \<and>
   lines (step landingState (Tick Tet_T) Tet_T) = 31 \<and>
   level (step landingState (Tick Tet_T) Tet_T) = 4"
proof -
  have piece: "currentPiece landingState = Some landingPiece"
    by (simp add: landingState_def landingPiece_def)
  have active: "\<not> gameOver landingState" "\<not> isPaused landingState"
    by (simp_all add: landingState_def)
  have landing: "isValidPosition (board landingState) landingPiece
      ((position landingPiece)\<lparr>pos_y := pos_y (position landingPiece) + 1\<rparr>) None = Inr False"
    by code_simp
  have placed: "placePiece (board landingState) landingPiece = Inr landedBoard"
    by code_simp
  have rows: "length (board landingState) = BOARD_HEIGHT"
    by code_simp
  have cleared: "snd (clearLines landedBoard) = 2"
    by code_simp
  have before: "score landingState = 1000" "level landingState = 3" "lines landingState = 29"
    by (simp_all add: landingState_def)
  have after: "level (step landingState (Tick Tet_T) Tet_T) = 4"
    by code_simp
  from landing_adds_score_and_lines [OF piece active landing placed rows, of Tet_T Tet_T]
  show ?thesis
    using piece placed cleared before after by simp
qed

section \<open>The level\<close>

text \<open>One event keeps the rows of the board and the level rule, and lowers neither the
  lines nor the level.\<close>

lemma step_invariant:
  assumes rows: "length (board s) = BOARD_HEIGHT"
    and lvl: "level s = lines s div 10 + 1"
  shows "length (board (step s ev rnd)) = BOARD_HEIGHT"
    and "level (step s ev rnd) = lines (step s ev rnd) div 10 + 1"
    and "lines s \<le> lines (step s ev rnd)"
    and "level s \<le> level (step s ev rnd)"
proof -
  let ?s' = "fst (fire s ev)"
  from fire_fields [OF rows, of ev]
  have f: "level ?s' = level s" "length (board ?s') = BOARD_HEIGHT" "lines s \<le> lines ?s'"
    by simp_all
  show "length (board (step s ev rnd)) = BOARD_HEIGHT"
    using f(2) by (simp add: step_def runEffects_fields)
  show l: "level (step s ev rnd) = lines (step s ev rnd) div 10 + 1"
    using f(1) lvl by (simp add: step_def runEffects_fields)
  show m: "lines s \<le> lines (step s ev rnd)"
    using f(3) by (simp add: step_def runEffects_fields)
  from m have "lines s div 10 \<le> lines (step s ev rnd) div 10"
    by (rule zdiv_mono1) simp
  with l lvl show "level s \<le> level (step s ev rnd)"
    by simp
qed

lemma reachable_invariant:
  assumes "reachable s"
  shows "length (board s) = BOARD_HEIGHT \<and> level s = lines s div 10 + 1 \<and> 0 \<le> lines s"
  using assms
proof (induction rule: reachable.induct)
  case (reach_start rnd)
  show ?case
    by (simp add: startNewGame_def EMPTY_BOARD_def)
next
  case (reach_step s ev rnd)
  then show ?case
    using step_invariant [of s ev rnd] by auto
qed

text \<open>After an event that changed the lines, the level is the one the rule gives,
  whatever the state was.\<close>

lemma level_after_clear:
  assumes "lines (step s ev rnd) \<noteq> lines s"
  shows "level (step s ev rnd) = lines (step s ev rnd) div 10 + 1"
  using assms by (simp add: step_def runEffects_fields)

text \<open>No handler sets the level.\<close>

lemma fire_level: "level (fst (fire s ev)) = level s"
proof (cases ev)
  case (Tick rnd)
  from movePieceDown_shape [of s rnd] have "level (fst (movePieceDown s rnd)) = level s"
    by (elim disjE exE conjE) simp_all
  with Tick show ?thesis by simp
next
  case (KeyDown key rnd)
  from movePieceDown_shape [of s rnd] have "level (fst (movePieceDown s rnd)) = level s"
    by (elim disjE exE conjE) simp_all
  with KeyDown show ?thesis
    by (simp add: handleKeyPress_def Let_def split: option.split sum.split bool.split)
next
  case PauseButton
  then show ?thesis
    by (simp add: pauseButtonClick_def)
qed

text \<open>A game that has cleared eight lines, one landing away from the tenth.\<close>

lemma reachable_play:
  assumes "reachable s"
  shows "reachable (play s evs)"
  using assms
proof (induction evs arbitrary: s)
  case Nil
  then show ?case by simp
next
  case (Cons ev evs)
  from Cons.prems have "reachable (step s ev Tet_I)"
    by (rule reachable.reach_step)
  then show ?case
    by (simp add: Cons.IH)
qed

lemma eightLinesState_played: "play (startNewGame Tet_I) eightLinesPlay = eightLinesState"
  by code_simp

lemma eightLinesState_reachable: "reachable eightLinesState"
proof -
  have "reachable (play (startNewGame Tet_I) eightLinesPlay)"
    by (rule reachable_play) (rule reachable.reach_start)
  then show ?thesis
    by (simp only: eightLinesState_played)
qed

text \<open>
  C5 as stated, for the state right after a line-clear event, fails. The landing handler
  queues the new lines and never the level; the level is set by an effect that runs after
  the render of the new lines. In the state the handler commits, which is rendered, the
  tenth line is counted and the level is still 1, not \<open>10 div 10 + 1\<close>.
\<close>

theorem level_lags_behind_lines_counterexample:
  "reachable eightLinesState \<and>
   lines (fst (fire eightLinesState (Tick Tet_I))) = 10 \<and>
   level (fst (fire eightLinesState (Tick Tet_I))) = 1 \<and>
   level (fst (fire eightLinesState (Tick Tet_I)))
     \<noteq> lines (fst (fire eightLinesState (Tick Tet_I))) div 10 + 1"
proof -
  have "lines (fst (fire eightLinesState (Tick Tet_I))) = 10"
    by code_simp
  moreover have "level (fst (fire eightLinesState (Tick Tet_I))) = 1"
    by code_simp
  ultimately show ?thesis
    using eightLinesState_reachable by simp
qed

text \<open>
  C5, as the code has it. In every state of a game in which the effects have run, the
  lines are not negative and the level is \<open>lines div 10 + 1\<close>. The handler of an event, a
  line clear among them, does not lower the lines and leaves the level as it was; the
  effects that run after the render keep the lines and set the level to
  \<open>lines div 10 + 1\<close> again, which is not below the level before the event.
\<close>

theorem level_follows_lines_after_effect:
  assumes "reachable s"
  shows "0 \<le> lines s \<and> level s = lines s div 10 + 1 \<and>
         lines s \<le> lines (fst (fire s ev)) \<and> level (fst (fire s ev)) = level s \<and>
         lines (step s ev rnd) = lines (fst (fire s ev)) \<and>
         level (step s ev rnd) = lines (step s ev rnd) div 10 + 1 \<and>
         level s \<le> level (step s ev rnd)"
proof -
  from assms have inv: "length (board s) = BOARD_HEIGHT" "level s = lines s div 10 + 1"
      "0 \<le> lines s"
    by (simp_all add: reachable_invariant)
  have handler: "lines s \<le> lines (fst (fire s ev))"
    using fire_fields [OF inv(1), of ev] by simp
  have same: "lines (step s ev rnd) = lines (fst (fire s ev))"
    by (simp add: step_def runEffects_fields)
  from step_invariant(2,4) [OF inv(1,2), of ev rnd] inv(2,3) handler same fire_level [of s ev]
  show ?thesis
    by simp
qed

text \<open>The landing that clears the ninth and the tenth line of a game: the handler commits
  10 lines at level 1, and after the level effect the level is 2.\<close>

theorem level_follows_lines_after_effect_witness:
  "reachable eightLinesState \<and> lines eightLinesState = 8 \<and> level eightLinesState = 1 \<and>
   lines (fst (fire eightLinesState (Tick Tet_I))) = 10 \<and>
   level (fst (fire eightLinesState (Tick Tet_I))) = 1 \<and>
   lines (step eightLinesState (Tick Tet_I) Tet_I) = 10 \<and>
   level (step eightLinesState (Tick Tet_I) Tet_I) = 2"
proof -
  have before: "lines eightLinesState = 8" "level eightLinesState = 1"
    by (simp_all add: eightLinesState_def)
  have committed: "lines (fst (fire eightLinesState (Tick Tet_I))) = 10"
    by code_simp
  from level_follows_lines_after_effect [OF eightLinesState_reachable, of "Tick Tet_I" Tet_I]
  show ?thesis
    using eightLinesState_reachable before committed by simp
qed

section \<open>Ticks that do nothing\<close>

text \<open>
  C9. While the game is paused, \<open>movePieceDown\<close> returns the state as it was and raises
  nothing, and no effect runs after it: board, piece, score, lines, level and flags are
  the same.
\<close>

theorem tick_while_paused:
  assumes "isPaused s"
  shows "movePieceDown s rnd = (s, None) \<and> step s (Tick rnd) rnd' = s"
proof -
  from assms have "movePieceDown s rnd = (s, None)"
    by (simp add: movePieceDown_def split: option.split)
  then show ?thesis
    by (simp add: step_def runEffects_same)
qed

theorem tick_while_paused_witness:
  "isPaused pausedState \<and> movePieceDown pausedState Tet_I = (pausedState, None) \<and>
   step pausedState (Tick Tet_I) Tet_I = pausedState"
proof -
  have "isPaused pausedState"
    by (simp add: pausedState_def)
  from this tick_while_paused [OF this, of Tet_I Tet_I] show ?thesis
    by simp
qed

text \<open>
  C10. With no current piece, or after the game is over, \<open>movePieceDown\<close> returns the
  state as it was and raises nothing, and no effect runs after it.
\<close>

theorem tick_without_piece_or_after_game_over:
  assumes "currentPiece s = None \<or> gameOver s"
  shows "movePieceDown s rnd = (s, None) \<and> step s (Tick rnd) rnd' = s"
proof -
  from assms have "movePieceDown s rnd = (s, None)"
    by (auto simp: movePieceDown_def split: option.split)
  then show ?thesis
    by (simp add: step_def runEffects_same)
qed

theorem tick_without_piece_or_after_game_over_witness:
  "currentPiece noPieceState = None \<and> movePieceDown noPieceState Tet_I = (noPieceState, None) \<and>
   gameOver gameOverState \<and> movePieceDown gameOverState Tet_I = (gameOverState, None) \<and>
   step gameOverState (Tick Tet_I) Tet_I = gameOverState"
proof -
  have none: "currentPiece noPieceState = None \<or> gameOver noPieceState"
    by (simp add: noPieceState_def)
  have over: "currentPiece gameOverState = None \<or> gameOver gameOverState"
    by (simp add: gameOverState_def)
  have "currentPiece noPieceState = None" "gameOver gameOverState"
    by (simp_all add: noPieceState_def gameOverState_def)
  with tick_without_piece_or_after_game_over [OF none, of Tet_I Tet_I]
    tick_without_piece_or_after_game_over [OF over, of Tet_I Tet_I]
  show ?thesis
    by simp
qed

section \<open>Pausing\<close>

text \<open>The key handler returns at its first line while the game is paused, whatever the
  key; the Pause/Resume button flips the flag in both states; the key P pauses an active
  game.\<close>

lemma handleKeyPress_paused:
  assumes "isPaused s"
  shows "handleKeyPress s key rnd = (s, None)"
  using assms by (simp add: handleKeyPress_def split: option.split)

lemma pauseButtonClick_flips:
  assumes "\<not> gameOver s"
  shows "isPaused (pauseButtonClick s) = (\<not> isPaused s)"
  using assms by (simp add: pauseButtonClick_def)

lemma handleKeyPress_pauses:
  assumes "currentPiece s = Some cp" "\<not> gameOver s" "\<not> isPaused s" "key = ''p'' \<or> key = ''P''"
  shows "handleKeyPress s key rnd = (s\<lparr>isPaused := True\<rparr>, None)"
  using assms by (auto simp: handleKeyPress_def)

text \<open>
  C7 on the code. In a paused game the keys \<^verbatim>\<open>p\<close> and \<^verbatim>\<open>P\<close> leave the state as it
  is, still paused: the toggle \<^verbatim>\<open>setIsPaused((prev) => !prev)\<close> stands behind the guard
  \<^verbatim>\<open>if (!currentPiece || gameOver || isPaused) return\<close>. The button resumes the game.
\<close>

theorem pause_key_ignored_while_paused:
  "isPaused pausedState \<and> \<not> gameOver pausedState \<and>
   handleKeyPress pausedState ''p'' Tet_I = (pausedState, None) \<and>
   handleKeyPress pausedState ''P'' Tet_I = (pausedState, None) \<and>
   isPaused (pauseButtonClick pausedState) = False"
  by (simp add: pausedState_def startNewGame_def handleKeyPress_def pauseButtonClick_def)

section \<open>The check of the next piece\<close>

text \<open>When the next piece does not fit the board as it was before the landing, the game
  is over and the landed piece stays the current piece.\<close>

lemma movePieceDown_spawn_failure:
  assumes piece: "currentPiece s = Some cp"
    and active: "\<not> gameOver s" "\<not> isPaused s"
    and landing: "isValidPosition (board s) cp
                    ((position cp)\<lparr>pos_y := pos_y (position cp) + 1\<rparr>) None = Inr False"
    and placed: "placePiece (board s) cp = Inr newBoard"
    and stale: "isValidPosition (board s) (createRandomPiece rnd)
                    (position (createRandomPiece rnd)) None = Inr False"
  shows "gameOver (fst (movePieceDown s rnd)) \<and> currentPiece (fst (movePieceDown s rnd)) = Some cp"
  using assms by (simp add: movePieceDown_def Let_def)

text \<open>
  C8 on the code. In \<open>towerState\<close> the O piece lands in the rows 0 and 1. The next piece,
  T, does not fit the board that results, yet it becomes the current piece and the game is
  not over: the check read the board without the landed piece.
\<close>

theorem spawn_check_misses_landed_piece:
  "currentPiece (fst (movePieceDown towerState Tet_T)) = Some (createRandomPiece Tet_T) \<and>
   gameOver (fst (movePieceDown towerState Tet_T)) = False \<and>
   isValidPosition (board (fst (movePieceDown towerState Tet_T))) (createRandomPiece Tet_T)
     (position (createRandomPiece Tet_T)) None = Inr False"
  by code_simp

end
